theory Spec2Isabelle
  imports Main "HOL-Library.Sublist"
begin

section \<open>The node modal of the graph editor\<close>

text \<open>
  The development embeds \<^verbatim>\<open>src/features/modals/NodeModal/index.tsx\<close>: the three helpers
  \<^verbatim>\<open>normalizeNodeData\<close>, \<^verbatim>\<open>jsonPathToString\<close> and \<^verbatim>\<open>updateJsonAtPath\<close>, and the
  handlers of the component (\<^verbatim>\<open>handleEdit\<close>, \<^verbatim>\<open>handleCancel\<close>, \<^verbatim>\<open>handleSave\<close>, the
  effect that runs when the modal opens and the \<^verbatim>\<open>onChange\<close> of the text area).
\<close>

subsection \<open>JavaScript values\<close>

text \<open>
  The values that \<^verbatim>\<open>JSON.parse\<close> returns. The type of numbers is a parameter: nothing in
  the component computes with them. An object is the list of its own properties in the
  order in which JavaScript enumerates them.
\<close>

datatype 'n json =
    JNull
  | JBool bool
  | JNum 'n
  | JStr string
  | JArr "'n json list"
  | JObj "(string \<times> 'n json) list"

text \<open>
  The built-ins of the platform that the file calls: \<^verbatim>\<open>JSON.parse(s)\<close> (\<open>None\<close> when it
  throws its SyntaxError), \<^verbatim>\<open>JSON.stringify(v, null, 2)\<close> and the conversion of a number
  to a string that a template literal and \<^verbatim>\<open>Array.prototype.join\<close> apply. Every function
  of the component takes them as the parameter \<open>P\<close>; a reference implementation is
  \<open>reference_runtime\<close> below.
\<close>

record 'n runtime =
  JSON_parse :: "string \<Rightarrow> 'n json option"
  JSON_stringify :: "'n json \<Rightarrow> string"
  Number_toString :: "'n \<Rightarrow> string"

datatype jserror = SyntaxError | TypeError

text \<open>An \<^verbatim>\<open>Error\<close> object that is thrown, with its message.\<close>

datatype exn = Error string

subsection \<open>Node data\<close>

text \<open>
  Modelled from the spec: the declarations of \<^verbatim>\<open>types/graph\<close> are not among the sources.
  A node has \<^verbatim>\<open>text\<close>, an ordered sequence of rows \<^verbatim>\<open>{key?, value, type}\<close>, and \<^verbatim>\<open>path\<close>,
  an ordered sequence of string or number segments. The value of a row is a primitive;
  a numeric segment is an array index, a natural number.
\<close>

datatype 'n rowvalue = VStr string | VNum 'n | VBool bool | VNull

record 'n NodeRow =
  key :: "string option"
  "value" :: "'n rowvalue"
  type :: string

datatype segment = SegStr string | SegNum nat

record 'n NodeData =
  "text" :: "'n NodeRow list option"
  path :: "segment list option"

subsection \<open>Conversions of the language\<close>

text \<open>Decimal digits of a natural number: \<^verbatim>\<open>String(n)\<close> for an array index \<open>n\<close>.\<close>

definition digit_char :: "nat \<Rightarrow> char" where
  "digit_char d = ''0123456789'' ! (d mod 10)"

function show_nat :: "nat \<Rightarrow> string" where
  "show_nat n = (if n < 10 then [digit_char n] else show_nat (n div 10) @ [digit_char n])"
  by pat_completeness auto
termination
  by (relation "measure id") auto

declare show_nat.simps [simp del]

text \<open>\<^verbatim>\<open>ToPropertyKey\<close>: the property name that a segment denotes in \<^verbatim>\<open>current[seg]\<close>.\<close>

fun prop_key :: "segment \<Rightarrow> string" where
  "prop_key (SegStr s) = s"
| "prop_key (SegNum n) = show_nat n"

text \<open>
  A property name is an array index when it is the canonical decimal form of a number
  below \<open>2^32 - 1\<close>.
\<close>

definition is_digit :: "char \<Rightarrow> bool" where
  "is_digit c = (48 \<le> (of_char c :: nat) \<and> (of_char c :: nat) \<le> 57)"

definition digits_value :: "string \<Rightarrow> nat" where
  "digits_value s = foldl (\<lambda>a c. 10 * a + ((of_char c :: nat) - 48)) 0 s"

definition array_index :: "string \<Rightarrow> nat option" where
  "array_index s =
     (if s = [] then None
      else if list_all is_digit s \<and> (if hd s = CHR ''0'' then s = ''0'' else True)
              \<and> int (digits_value s) < 4294967295
        then Some (digits_value s)
      else None)"

text \<open>Truthiness of \<^verbatim>\<open>row.key\<close>: a key that is absent or the empty string is falsy.\<close>

fun truthy :: "string option \<Rightarrow> bool" where
  "truthy None = False"
| "truthy (Some s) = (s \<noteq> [])"

text \<open>\<^verbatim>\<open>`${v}`\<close> for the value of a row.\<close>

fun ToString :: "'n runtime \<Rightarrow> 'n rowvalue \<Rightarrow> string" where
  "ToString P (VStr s) = s"
| "ToString P (VNum n) = Number_toString P n"
| "ToString P (VBool b) = (if b then ''true'' else ''false'')"
| "ToString P VNull = ''null''"

fun json_of_rowvalue :: "'n rowvalue \<Rightarrow> 'n json" where
  "json_of_rowvalue (VStr s) = JStr s"
| "json_of_rowvalue (VNum n) = JNum n"
| "json_of_rowvalue (VBool b) = JBool b"
| "json_of_rowvalue VNull = JNull"

text \<open>\<^verbatim>\<open>Array.prototype.join\<close> on strings.\<close>

fun join :: "string \<Rightarrow> string list \<Rightarrow> string" where
  "join sep [] = []"
| "join sep [x] = x"
| "join sep (x # y # ys) = x @ sep @ join sep (y # ys)"

subsection \<open>Reading and writing properties\<close>

text \<open>
  An object is the list of its own properties. Defining a property (as \<^verbatim>\<open>JSON.parse\<close>
  does for the members it reads) replaces the value of an own property in its place and
  adds a new one; JavaScript enumerates array-index names first, in ascending order, then
  the other names in the order of their creation.
\<close>

fun insert_index :: "nat \<Rightarrow> string \<Rightarrow> 'n json \<Rightarrow> (string \<times> 'n json) list \<Rightarrow> (string \<times> 'n json) list" where
  "insert_index i k v [] = [(k, v)]"
| "insert_index i k v (p # ps) =
     (case array_index (fst p) of
        Some j \<Rightarrow> if j < i then p # insert_index i k v ps else (k, v) # p # ps
      | None \<Rightarrow> (k, v) # p # ps)"

definition obj_define :: "string \<Rightarrow> 'n json \<Rightarrow> (string \<times> 'n json) list \<Rightarrow> (string \<times> 'n json) list" where
  "obj_define k v ps =
     (if k \<in> fst ` set ps then map (\<lambda>p. if fst p = k then (k, v) else p) ps
      else case array_index k of
             Some i \<Rightarrow> insert_index i k v ps
           | None \<Rightarrow> ps @ [(k, v)])"

text \<open>
  \<^verbatim>\<open>obj[k] = v\<close> on an object made by \<^verbatim>\<open>JSON.parse\<close> or by \<^verbatim>\<open>{}\<close>: the assignment defines
  the property, but for the name \<^verbatim>\<open>__proto__\<close> when the object does not own it: that is
  the accessor of \<^verbatim>\<open>Object.prototype\<close>, which defines nothing and makes a value that is
  an object or \<^verbatim>\<open>null\<close> the prototype. The flag beside the properties tells that the
  prototype has become \<^verbatim>\<open>null\<close>, after which the name is a name like any other.

  Reading is modelled for own properties only: what a value inherits from the built-in
  prototypes (\<^verbatim>\<open>constructor\<close>, \<^verbatim>\<open>toString\<close>, \<^verbatim>\<open>__proto__\<close> where it is not own, ...) and
  the \<^verbatim>\<open>length\<close> of an array or string are outside the model. The paths of a node are
  made of the keys and indices of the document.
\<close>

fun is_null :: "'n json \<Rightarrow> bool" where
  "is_null JNull = True"
| "is_null v = False"

fun obj_assign ::
  "string \<Rightarrow> 'n json \<Rightarrow> bool \<times> (string \<times> 'n json) list \<Rightarrow> bool \<times> (string \<times> 'n json) list" where
  "obj_assign k v (proto_null, ps) =
     (if k = ''__proto__'' \<and> k \<notin> fst ` set ps \<and> \<not> proto_null then (is_null v, ps)
      else (proto_null, obj_define k v ps))"

text \<open>
  \<^verbatim>\<open>arr[k] = v\<close> on an array: an index below the length replaces the element, an index
  at or beyond it extends the array, the holes in between being serialised as \<^verbatim>\<open>null\<close>;
  any other name creates a property that \<^verbatim>\<open>JSON.stringify\<close> does not serialise.
\<close>

definition arr_set :: "string \<Rightarrow> 'n json \<Rightarrow> 'n json list \<Rightarrow> 'n json list" where
  "arr_set k v xs =
     (case array_index k of
        Some i \<Rightarrow> if i < length xs then xs[i := v]
                  else xs @ replicate (i - length xs) JNull @ [v]
      | None \<Rightarrow> xs)"

text \<open>
  The objects and arrays of a parsed document form a tree that shares nothing. The store
  is this tree; the address of an object or array in it is the list of property names
  that leads to it from the root. \<open>member\<close> is an own property of a container and
  \<open>deref\<close> the value at an address.
\<close>

fun member :: "'n json \<Rightarrow> string \<Rightarrow> 'n json option" where
  "member (JObj ps) k = map_of ps k"
| "member (JArr xs) k =
     (case array_index k of
        None \<Rightarrow> None
      | Some i \<Rightarrow> if i < length xs then Some (xs ! i) else None)"
| "member v k = None"

fun deref :: "'n json \<Rightarrow> string list \<Rightarrow> 'n json option" where
  "deref doc [] = Some doc"
| "deref doc (k # ks) =
     (case member doc k of
        None \<Rightarrow> None
      | Some c \<Rightarrow> deref c ks)"

fun set_member :: "string \<Rightarrow> 'n json \<Rightarrow> 'n json \<Rightarrow> 'n json" where
  "set_member k v (JObj ps) = JObj (snd (obj_assign k v (False, ps)))"
| "set_member k v (JArr xs) = JArr (arr_set k v xs)"
| "set_member k v c = c"

text \<open>The store after the container at an address has been changed by \<open>f\<close>.\<close>

fun modify_at :: "'n json \<Rightarrow> string list \<Rightarrow> ('n json \<Rightarrow> 'n json) \<Rightarrow> 'n json" where
  "modify_at doc [] f = f doc"
| "modify_at doc (k # ks) f =
     (case member doc k of
        None \<Rightarrow> doc
      | Some c \<Rightarrow> set_member k (modify_at c ks f) doc)"

text \<open>
  What a variable holds: \<^verbatim>\<open>undefined\<close>, a primitive, or a reference to an object or array
  of the store.
\<close>

datatype 'n jsval = Undefined | Primitive "'n json" | Reference "string list"

fun is_container :: "'n json \<Rightarrow> bool" where
  "is_container (JObj ps) = True"
| "is_container (JArr xs) = True"
| "is_container v = False"

definition js_value :: "'n json \<Rightarrow> string list \<Rightarrow> 'n jsval" where
  "js_value v address = (if is_container v then Reference address else Primitive v)"

text \<open>
  \<^verbatim>\<open>current[k]\<close>: a TypeError on \<^verbatim>\<open>null\<close> and \<^verbatim>\<open>undefined\<close>, the member of an object or
  array, the character of a string, \<^verbatim>\<open>undefined\<close> otherwise.
\<close>

fun js_get :: "'n json \<Rightarrow> 'n jsval \<Rightarrow> string \<Rightarrow> jserror + 'n jsval" where
  "js_get store Undefined k = Inl TypeError"
| "js_get store (Primitive JNull) k = Inl TypeError"
| "js_get store (Primitive (JStr s)) k =
     Inr (case array_index k of
            None \<Rightarrow> Undefined
          | Some i \<Rightarrow> if i < length s then Primitive (JStr [s ! i]) else Undefined)"
| "js_get store (Primitive v) k = Inr Undefined"
| "js_get store (Reference address) k =
     Inr (case deref store address of
            None \<Rightarrow> Undefined
          | Some c \<Rightarrow>
              (case member c k of
                 None \<Rightarrow> Undefined
               | Some v \<Rightarrow> js_value v (address @ [k])))"

text \<open>
  \<^verbatim>\<open>current[k] = v\<close> in the strict mode of a module: a TypeError on \<^verbatim>\<open>null\<close>,
  \<^verbatim>\<open>undefined\<close> and on a primitive; on a reference the result is the store after the
  assignment to the object or array at its address.
\<close>

fun js_set :: "'n json \<Rightarrow> 'n jsval \<Rightarrow> string \<Rightarrow> 'n json \<Rightarrow> jserror + 'n json" where
  "js_set store (Reference address) k v = Inr (modify_at store address (set_member k v))"
| "js_set store current k v = Inl TypeError"

subsection \<open>normalizeNodeData\<close>

text \<open>The body of the \<^verbatim>\<open>forEach\<close>: one row added to the object under construction.\<close>

definition addRow ::
  "bool \<times> (string \<times> 'n json) list \<Rightarrow> 'n NodeRow \<Rightarrow> bool \<times> (string \<times> 'n json) list" where
  "addRow obj row =
     (if type row \<noteq> ''array'' \<and> type row \<noteq> ''object''
      then (if truthy (key row)
            then (case key row of
                    None \<Rightarrow> obj
                  | Some k \<Rightarrow> obj_assign k (json_of_rowvalue (value row)) obj)
            else obj)
      else obj)"

definition normalizeNodeData :: "'n runtime \<Rightarrow> 'n NodeRow list option \<Rightarrow> string" where
  "normalizeNodeData P nodeRows =
     (case nodeRows of
        None \<Rightarrow> ''{}''
      | Some rows \<Rightarrow>
          if length rows = 0 then ''{}''
          else if length rows = 1 \<and> \<not> truthy (key (rows ! 0)) then ToString P (value (rows ! 0))
          else JSON_stringify P (JObj (snd (foldl addRow (False, []) rows))))"

subsection \<open>jsonPathToString\<close>

fun segment_text :: "segment \<Rightarrow> string" where
  "segment_text (SegNum n) = show_nat n"
| "segment_text (SegStr s) = [CHR 0x22] @ s @ [CHR 0x22]"

definition jsonPathToString :: "segment list option \<Rightarrow> string" where
  "jsonPathToString p =
     (case p of
        None \<Rightarrow> ''$''
      | Some segs \<Rightarrow>
          if length segs = 0 then ''$''
          else ''$['' @ join '']['' (map segment_text segs) @ '']'')"

subsection \<open>updateJsonAtPath\<close>

text \<open>The loop \<^verbatim>\<open>for (i = 0; i < path.length - 1; i++) current = current[path[i]]\<close>.\<close>

fun navigate :: "'n json \<Rightarrow> 'n jsval \<Rightarrow> segment list \<Rightarrow> jserror + 'n jsval" where
  "navigate store current [] = Inr current"
| "navigate store current (seg # segs) =
     (case js_get store current (prop_key seg) of
        Inl e \<Rightarrow> Inl e
      | Inr c \<Rightarrow> navigate store c segs)"

definition update_failed :: string where
  "update_failed = ''Failed to update JSON. Please check your input.''"

text \<open>
  The body of the outer \<^verbatim>\<open>try\<close>; the inner \<^verbatim>\<open>try\<close> is \<open>parsedValue\<close>. The store is
  the parsed document, \<^verbatim>\<open>parsedJson\<close> and \<^verbatim>\<open>current\<close> refer into it, and the final
  \<^verbatim>\<open>JSON.stringify(parsedJson)\<close> reads it after the assignment through \<^verbatim>\<open>current\<close>.
\<close>

definition parsedValue :: "'n runtime \<Rightarrow> string \<Rightarrow> 'n json" where
  "parsedValue P newValue =
     (case JSON_parse P newValue of
        Some v \<Rightarrow> v
      | None \<Rightarrow> JStr newValue)"

definition updateJsonAtPath_try ::
  "'n runtime \<Rightarrow> string \<Rightarrow> segment list option \<Rightarrow> string \<Rightarrow> jserror + string" where
  "updateJsonAtPath_try P json p newValue =
     (case JSON_parse P json of
        None \<Rightarrow> Inl SyntaxError
      | Some store \<Rightarrow>
          (case p of
             None \<Rightarrow> Inr (JSON_stringify P (parsedValue P newValue))
           | Some segs \<Rightarrow>
               if length segs = 0 then Inr (JSON_stringify P (parsedValue P newValue))
               else (case navigate store (js_value store []) (butlast segs) of
                       Inl e \<Rightarrow> Inl e
                     | Inr current \<Rightarrow>
                         (case js_set store current (prop_key (last segs)) (parsedValue P newValue) of
                            Inl e \<Rightarrow> Inl e
                          | Inr store' \<Rightarrow> Inr (JSON_stringify P store')))))"

definition updateJsonAtPath ::
  "'n runtime \<Rightarrow> string \<Rightarrow> segment list option \<Rightarrow> string \<Rightarrow> exn + string" where
  "updateJsonAtPath P json p newValue =
     (case updateJsonAtPath_try P json p newValue of
        Inl e \<Rightarrow> Inl (Error update_failed)
      | Inr s \<Rightarrow> Inr s)"

subsection \<open>The component\<close>

text \<open>
  The state that the handlers read and write: the selected node of the graph store, the
  text of the JSON store, the contents and the unsaved-changes flag of the file store, the
  three state variables of the component, and the notifications shown so far.
  Modelled from the spec: the stores are not among the sources; \<^verbatim>\<open>getJson\<close> reads and
  \<^verbatim>\<open>setJson\<close> replaces the text, \<^verbatim>\<open>setContents\<close> replaces contents and flag.
\<close>

datatype toast = ToastSuccess string | ToastError string

record 'n modal =
  opened :: bool
  selectedNode :: "'n NodeData option"
  json :: string
  contents :: string
  hasChanges :: bool
  isEditing :: bool
  editValue :: string
  originalValue :: string
  toasts :: "toast list"

text \<open>The effect on \<^verbatim>\<open>[opened, nodeData]\<close>.\<close>

definition openEffect :: "'n runtime \<Rightarrow> 'n modal \<Rightarrow> 'n modal" where
  "openEffect P st =
     (case selectedNode st of
        None \<Rightarrow> st
      | Some nodeData \<Rightarrow>
          if opened st
          then (let normalized = normalizeNodeData P
                      (case text nodeData of None \<Rightarrow> Some [] | Some rows \<Rightarrow> Some rows)
                in st\<lparr>originalValue := normalized, editValue := normalized, isEditing := False\<rparr>)
          else st)"

definition handleEdit :: "'n modal \<Rightarrow> 'n modal" where
  "handleEdit st = st\<lparr>isEditing := True\<rparr>"

text \<open>\<^verbatim>\<open>onChange\<close> of the text area.\<close>

definition setEditValue :: "string \<Rightarrow> 'n modal \<Rightarrow> 'n modal" where
  "setEditValue v st = st\<lparr>editValue := v\<rparr>"

definition handleCancel :: "'n modal \<Rightarrow> 'n modal" where
  "handleCancel st = st\<lparr>editValue := originalValue st, isEditing := False\<rparr>"

text \<open>\<^verbatim>\<open>nodeData?.path\<close>.\<close>

definition selectedPath :: "'n modal \<Rightarrow> segment list option" where
  "selectedPath st = (case selectedNode st of None \<Rightarrow> None | Some nodeData \<Rightarrow> path nodeData)"

definition handleSave :: "'n runtime \<Rightarrow> 'n modal \<Rightarrow> 'n modal" where
  "handleSave P st =
     (case updateJsonAtPath P (json st) (selectedPath st) (editValue st) of
        Inr updatedJson \<Rightarrow>
          st\<lparr>contents := updatedJson, hasChanges := True, json := updatedJson,
             originalValue := editValue st, isEditing := False,
             toasts := toasts st @ [ToastSuccess ''Node value updated successfully!'']\<rparr>
      | Inl (Error message) \<Rightarrow>
          st\<lparr>toasts := toasts st @
             [ToastError (if message = [] then ''Failed to update node value'' else message)]\<rparr>)"

text \<open>
  The clicks and changes that the rendered modal offers: Edit when it displays, the text
  area, Cancel and Save when it edits.
\<close>

datatype event = EditClick | Change string | CancelClick | SaveClick

fun step :: "'n runtime \<Rightarrow> 'n modal \<Rightarrow> event \<Rightarrow> 'n modal" where
  "step P st EditClick = (if isEditing st then st else handleEdit st)"
| "step P st (Change v) = (if isEditing st then setEditValue v st else st)"
| "step P st CancelClick = (if isEditing st then handleCancel st else st)"
| "step P st SaveClick = (if isEditing st then handleSave P st else st)"

definition run :: "'n runtime \<Rightarrow> 'n modal \<Rightarrow> event list \<Rightarrow> 'n modal" where
  "run P st evs = foldl (step P) st evs"

definition save_succeeds :: "'n runtime \<Rightarrow> 'n modal \<Rightarrow> bool" where
  "save_succeeds P st =
     (case updateJsonAtPath P (json st) (selectedPath st) (editValue st) of
        Inl e \<Rightarrow> False
      | Inr s \<Rightarrow> True)"

text \<open>No save of the sequence succeeds.\<close>

fun no_save_succeeds :: "'n runtime \<Rightarrow> 'n modal \<Rightarrow> event list \<Rightarrow> bool" where
  "no_save_succeeds P st [] = True"
| "no_save_succeeds P st (ev # evs) =
     (if ev = SaveClick \<and> isEditing st \<and> save_succeeds P st then False
      else no_save_succeeds P (step P st ev) evs)"

section \<open>Documents and paths\<close>

text \<open>
  The value of a document at a path: the member of an object under the name of the
  segment, the element of an array at its index, and nothing below a primitive.
\<close>

definition value_at :: "'n json \<Rightarrow> segment list \<Rightarrow> 'n json option" where
  "value_at doc segs = deref doc (map prop_key segs)"

text \<open>
  Two paths are on one line when the property names of one are an initial part of the
  property names of the other: the path leads to the other, or the two are the same.
\<close>

definition on_one_line :: "segment list \<Rightarrow> segment list \<Rightarrow> bool" where
  "on_one_line p q =
     (prefix (map prop_key p) (map prop_key q) \<or> prefix (map prop_key q) (map prop_key p))"

text \<open>
  The object that results from defining the members of a list one after the other, and
  the member that a row of a node contributes when it is neither an array nor an object
  and has a key that is not empty.
\<close>

definition object_of :: "(string \<times> 'n json) list \<Rightarrow> (string \<times> 'n json) list" where
  "object_of ms = foldl (\<lambda>obj m. obj_define (fst m) (snd m) obj) [] ms"

definition container_row :: "'n NodeRow \<Rightarrow> bool" where
  "container_row row = (type row = ''array'' \<or> type row = ''object'')"

fun row_member :: "'n NodeRow \<Rightarrow> (string \<times> 'n json) list" where
  "row_member row =
     (if container_row row then []
      else (case key row of
              None \<Rightarrow> []
            | Some k \<Rightarrow> if k = [] then [] else [(k, json_of_rowvalue (value row))]))"

definition row_members :: "'n NodeRow list \<Rightarrow> (string \<times> 'n json) list" where
  "row_members rows = concat (map row_member rows)"

text \<open>The path that \<^verbatim>\<open>nodeData?.path\<close> denotes when it is absent is the empty one.\<close>

definition segments_of :: "segment list option \<Rightarrow> segment list" where
  "segments_of p = (case p of None \<Rightarrow> [] | Some segs \<Rightarrow> segs)"

section \<open>A reference runtime\<close>

text \<open>
  An executable instance of the built-ins, on which the examples below are evaluated.
  A number is a decimal \<open>m * 10^e\<close> in lowest form: the value of a literal of up to
  fifteen significant digits, which a double holds and prints back unchanged. A character
  is a code unit below 256; an escape \<^verbatim>\<open>\uXXXX\<close> beyond that is not read.
\<close>

datatype decimal = Decimal int int

function strip_zeros :: "int \<Rightarrow> int \<Rightarrow> decimal" where
  "strip_zeros m e = (if m = 0 then Decimal 0 0
                      else if m mod 10 = 0 then strip_zeros (m div 10) (e + 1)
                      else Decimal m e)"
  by pat_completeness auto
termination
  by (relation "measure (\<lambda>(m, e). nat \<bar>m\<bar>)") auto

declare strip_zeros.simps [simp del]

subsection \<open>Number::toString and JSON.stringify with an indentation of two spaces\<close>

definition show_exponent :: "int \<Rightarrow> string" where
  "show_exponent x = (if x < 0 then ''e-'' else ''e+'') @ show_nat (nat \<bar>x\<bar>)"

fun number_to_string :: "decimal \<Rightarrow> string" where
  "number_to_string (Decimal m e) =
     (if m = 0 then ''0''
      else
        (let s = show_nat (nat \<bar>m\<bar>);
             k = int (length s);
             n = e + k;
             body =
               (if k \<le> n \<and> n \<le> 21 then s @ replicate (nat (n - k)) CHR ''0''
                else if 0 < n \<and> n \<le> 21 then take (nat n) s @ ''.'' @ drop (nat n) s
                else if - 6 < n \<and> n \<le> 0 then ''0.'' @ replicate (nat (- n)) CHR ''0'' @ s
                else if k = 1 then s @ show_exponent (n - 1)
                else [hd s] @ ''.'' @ tl s @ show_exponent (n - 1))
         in (if m < 0 then ''-'' else '''') @ body))"

definition hex_char :: "nat \<Rightarrow> char" where
  "hex_char d = ''0123456789abcdef'' ! (d mod 16)"

definition quote_char :: "char \<Rightarrow> string" where
  "quote_char c =
     (if c = CHR 0x22 then [CHR 0x5C, CHR 0x22]
      else if c = CHR 0x5C then [CHR 0x5C, CHR 0x5C]
      else if c = CHR 0x08 then [CHR 0x5C, CHR ''b'']
      else if c = CHR 0x09 then [CHR 0x5C, CHR ''t'']
      else if c = CHR 0x0A then [CHR 0x5C, CHR ''n'']
      else if c = CHR 0x0C then [CHR 0x5C, CHR ''f'']
      else if c = CHR 0x0D then [CHR 0x5C, CHR ''r'']
      else if (of_char c :: nat) < 32
        then [CHR 0x5C, CHR ''u'', CHR ''0'', CHR ''0'',
              hex_char ((of_char c :: nat) div 16), hex_char (of_char c)]
      else [c])"

definition quote :: "string \<Rightarrow> string" where
  "quote s = [CHR 0x22] @ concat (map quote_char s) @ [CHR 0x22]"

fun stringify_at :: "string \<Rightarrow> decimal json \<Rightarrow> string"
  and stringify_items :: "string \<Rightarrow> decimal json list \<Rightarrow> string"
  and stringify_members :: "string \<Rightarrow> (string \<times> decimal json) list \<Rightarrow> string" where
  "stringify_at ind JNull = ''null''"
| "stringify_at ind (JBool b) = (if b then ''true'' else ''false'')"
| "stringify_at ind (JNum n) = number_to_string n"
| "stringify_at ind (JStr s) = quote s"
| "stringify_at ind (JArr []) = ''[]''"
| "stringify_at ind (JArr (x # xs)) =
     ''['' @ stringify_items (ind @ ''  '') (x # xs) @ [CHR 0x0A] @ ind @ '']''"
| "stringify_at ind (JObj []) = ''{}''"
| "stringify_at ind (JObj (p # ps)) =
     ''{'' @ stringify_members (ind @ ''  '') (p # ps) @ [CHR 0x0A] @ ind @ ''}''"
| "stringify_items ind [] = []"
| "stringify_items ind [x] = [CHR 0x0A] @ ind @ stringify_at ind x"
| "stringify_items ind (x # y # ys) =
     [CHR 0x0A] @ ind @ stringify_at ind x @ '','' @ stringify_items ind (y # ys)"
| "stringify_members ind [] = []"
| "stringify_members ind [(k, v)] = [CHR 0x0A] @ ind @ quote k @ '': '' @ stringify_at ind v"
| "stringify_members ind ((k, v) # q # qs) =
     [CHR 0x0A] @ ind @ quote k @ '': '' @ stringify_at ind v @ '','' @ stringify_members ind (q # qs)"

subsection \<open>JSON.parse\<close>

definition is_ws :: "char \<Rightarrow> bool" where
  "is_ws c = (c = CHR 0x20 \<or> c = CHR 0x09 \<or> c = CHR 0x0A \<or> c = CHR 0x0D)"

fun skip_ws :: "string \<Rightarrow> string" where
  "skip_ws [] = []"
| "skip_ws (c # cs) = (if is_ws c then skip_ws cs else c # cs)"

definition hex_value :: "char \<Rightarrow> nat option" where
  "hex_value c =
     (let x = (of_char c :: nat)
      in if 48 \<le> x \<and> x \<le> 57 then Some (x - 48)
         else if 97 \<le> x \<and> x \<le> 102 then Some (x - 87)
         else if 65 \<le> x \<and> x \<le> 70 then Some (x - 55)
         else None)"

definition code_unit :: "char \<Rightarrow> char \<Rightarrow> char \<Rightarrow> char \<Rightarrow> char option" where
  "code_unit a b c d =
     (case (hex_value a, hex_value b, hex_value c, hex_value d) of
        (Some w, Some x, Some y, Some z) \<Rightarrow>
          if w = 0 \<and> x = 0 then Some (char_of (16 * y + z)) else None
      | _ \<Rightarrow> None)"

definition unescape :: "char \<Rightarrow> char option" where
  "unescape e =
     (if e = CHR 0x22 then Some (CHR 0x22)
      else if e = CHR 0x5C then Some (CHR 0x5C)
      else if e = CHR ''/'' then Some (CHR ''/'')
      else if e = CHR ''b'' then Some (CHR 0x08)
      else if e = CHR ''f'' then Some (CHR 0x0C)
      else if e = CHR ''n'' then Some (CHR 0x0A)
      else if e = CHR ''r'' then Some (CHR 0x0D)
      else if e = CHR ''t'' then Some (CHR 0x09)
      else None)"

definition cons_char :: "char \<Rightarrow> (string \<times> string) option \<Rightarrow> (string \<times> string) option" where
  "cons_char c res = (case res of None \<Rightarrow> None | Some (s, rest) \<Rightarrow> Some (c # s, rest))"

text \<open>The characters of a string literal after its opening quote, and what follows it.\<close>

fun parse_chars :: "string \<Rightarrow> (string \<times> string) option" where
  "parse_chars [] = None"
| "parse_chars (c # cs) =
     (if c = CHR 0x22 then Some ([], cs)
      else if c = CHR 0x5C then
        (case cs of
           [] \<Rightarrow> None
         | e # r \<Rightarrow>
             if e = CHR ''u'' then
               (case r of
                  h1 # h2 # h3 # h4 # r' \<Rightarrow>
                    (case code_unit h1 h2 h3 h4 of
                       Some ch \<Rightarrow> cons_char ch (parse_chars r')
                     | None \<Rightarrow> None)
                | _ \<Rightarrow> None)
             else (case unescape e of
                     Some ch \<Rightarrow> cons_char ch (parse_chars r)
                   | None \<Rightarrow> None))
      else if (of_char c :: nat) < 32 then None
      else cons_char c (parse_chars cs))"

definition parse_exponent :: "string \<Rightarrow> (int \<times> string) option" where
  "parse_exponent s =
     (case s of
        [] \<Rightarrow> Some (0, s)
      | c # r \<Rightarrow>
          if c = CHR ''e'' \<or> c = CHR ''E'' then
            (let neg = (case r of [] \<Rightarrow> False | x # _ \<Rightarrow> x = CHR ''-'');
                 r' = (case r of [] \<Rightarrow> r | x # t \<Rightarrow> if x = CHR ''+'' \<or> x = CHR ''-'' then t else r);
                 ds = takeWhile is_digit r'
             in if ds = [] then None
                else Some ((if neg then - int (digits_value ds) else int (digits_value ds)),
                           dropWhile is_digit r'))
          else Some (0, s))"

definition parse_number :: "string \<Rightarrow> (decimal \<times> string) option" where
  "parse_number s =
     (let neg = (case s of [] \<Rightarrow> False | x # _ \<Rightarrow> x = CHR ''-'');
          s1 = (if neg then tl s else s);
          ds = takeWhile is_digit s1;
          s2 = dropWhile is_digit s1
      in if ds = [] \<or> (1 < length ds \<and> hd ds = CHR ''0'') then None
         else
           (let dot = (case s2 of [] \<Rightarrow> False | x # _ \<Rightarrow> x = CHR ''.'');
                fs = (if dot then takeWhile is_digit (tl s2) else []);
                s3 = (if dot then dropWhile is_digit (tl s2) else s2)
            in if dot \<and> fs = [] then None
               else (case parse_exponent s3 of
                       None \<Rightarrow> None
                     | Some (x, s4) \<Rightarrow>
                         Some (strip_zeros
                                 ((if neg then - 1 else 1) * int (digits_value (ds @ fs)))
                                 (x - int (length fs)), s4))))"

definition literal :: "string \<Rightarrow> 'a \<Rightarrow> string \<Rightarrow> ('a \<times> string) option" where
  "literal w v s = (if take (length w) s = w then Some (v, drop (length w) s) else None)"

text \<open>
  The grammar of JSON by recursive descent. The first argument bounds the depth of the
  recursion; \<open>parse_json\<close> starts it at twice the length of the text and one more. The
  members of an object are defined in the order of the text, a repeated name replacing
  the value of the earlier one.
\<close>

fun parse_value :: "nat \<Rightarrow> string \<Rightarrow> (decimal json \<times> string) option"
  and parse_elements :: "nat \<Rightarrow> string \<Rightarrow> (decimal json list \<times> string) option"
  and parse_members :: "nat \<Rightarrow> string \<Rightarrow> ((string \<times> decimal json) list \<times> string) option" where
  "parse_value 0 s = None"
| "parse_value (Suc n) s =
     (case skip_ws s of
        [] \<Rightarrow> None
      | c # r \<Rightarrow>
          if c = CHR ''{'' then
            (case skip_ws r of
               [] \<Rightarrow> None
             | d # r' \<Rightarrow>
                 if d = CHR ''}'' then Some (JObj [], r')
                 else (case parse_members n (d # r') of
                         None \<Rightarrow> None
                       | Some (ms, r'') \<Rightarrow> Some (JObj (object_of ms), r'')))
          else if c = CHR ''['' then
            (case skip_ws r of
               [] \<Rightarrow> None
             | d # r' \<Rightarrow>
                 if d = CHR '']'' then Some (JArr [], r')
                 else (case parse_elements n (d # r') of
                         None \<Rightarrow> None
                       | Some (xs, r'') \<Rightarrow> Some (JArr xs, r'')))
          else if c = CHR 0x22 then
            (case parse_chars r of
               None \<Rightarrow> None
             | Some (str, r') \<Rightarrow> Some (JStr str, r'))
          else if c = CHR ''t'' then literal ''true'' (JBool True) (c # r)
          else if c = CHR ''f'' then literal ''false'' (JBool False) (c # r)
          else if c = CHR ''n'' then literal ''null'' JNull (c # r)
          else (case parse_number (c # r) of
                  None \<Rightarrow> None
                | Some (x, r') \<Rightarrow> Some (JNum x, r')))"
| "parse_elements 0 s = None"
| "parse_elements (Suc n) s =
     (case parse_value n s of
        None \<Rightarrow> None
      | Some (v, r) \<Rightarrow>
          (case skip_ws r of
             [] \<Rightarrow> None
           | c # r' \<Rightarrow>
               if c = CHR '','' then
                 (case parse_elements n r' of
                    None \<Rightarrow> None
                  | Some (vs, r'') \<Rightarrow> Some (v # vs, r''))
               else if c = CHR '']'' then Some ([v], r')
               else None))"
| "parse_members 0 s = None"
| "parse_members (Suc n) s =
     (case skip_ws s of
        [] \<Rightarrow> None
      | q # r \<Rightarrow>
          if q = CHR 0x22 then
            (case parse_chars r of
               None \<Rightarrow> None
             | Some (k, r1) \<Rightarrow>
                 (case skip_ws r1 of
                    [] \<Rightarrow> None
                  | c # r2 \<Rightarrow>
                      if c = CHR '':'' then
                        (case parse_value n r2 of
                           None \<Rightarrow> None
                         | Some (v, r3) \<Rightarrow>
                             (case skip_ws r3 of
                                [] \<Rightarrow> None
                              | d # r4 \<Rightarrow>
                                  if d = CHR '','' then
                                    (case parse_members n r4 of
                                       None \<Rightarrow> None
                                     | Some (ms, r5) \<Rightarrow> Some ((k, v) # ms, r5))
                                  else if d = CHR ''}'' then Some ([(k, v)], r4)
                                  else None))
                      else None))
          else None)"

definition parse_json :: "string \<Rightarrow> decimal json option" where
  "parse_json s =
     (case parse_value (Suc (2 * length s)) s of
        None \<Rightarrow> None
      | Some (v, r) \<Rightarrow> if skip_ws r = [] then Some v else None)"

definition reference_runtime :: "decimal runtime" where
  "reference_runtime =
     \<lparr>JSON_parse = parse_json, JSON_stringify = stringify_at [], Number_toString = number_to_string\<rparr>"

section \<open>Examples\<close>

text \<open>
  Two documents with the values that \<^verbatim>\<open>JSON.parse\<close> returns for them, and a modal that
  edits a node of the first; the path of the node and the text of the text area are the
  arguments.
\<close>

definition example_document :: string where
  \<open>example_document = ''{"a": [1, 2], "b": null}''\<close>

definition example_value :: "decimal json" where
  "example_value =
     JObj [(''a'', JArr [JNum (Decimal 1 0), JNum (Decimal 2 0)]), (''b'', JNull)]"

definition nested_document :: string where
  \<open>nested_document = ''{"o": {"x": 1, "y": [2]}, "b": null}''\<close>

definition nested_value :: "decimal json" where
  "nested_value =
     JObj [(''o'', JObj [(''x'', JNum (Decimal 1 0)), (''y'', JArr [JNum (Decimal 2 0)])]),
           (''b'', JNull)]"

definition example_state :: "segment list option \<Rightarrow> string \<Rightarrow> decimal modal" where
  \<open>example_state p txt =
     \<lparr>opened = True,
      selectedNode =
        Some \<lparr>text = Some [\<lparr>key = None, value = VNum (Decimal 1 0), type = ''number''\<rparr>],
              path = p\<rparr>,
      json = example_document,
      contents = example_document,
      hasChanges = False,
      isEditing = True,
      editValue = txt,
      originalValue = ''1'',
      toasts = []\<rparr>\<close>

text \<open>Two rows without container among them, the first without a key.\<close>

definition example_rows :: "decimal NodeRow list" where
  "example_rows =
     [\<lparr>key = None, value = VNum (Decimal 1 0), type = ''number''\<rparr>,
      \<lparr>key = Some ''a'', value = VNum (Decimal 2 0), type = ''number''\<rparr>]"

text \<open>The rows of a node for an object with the members \<^verbatim>\<open>name\<close>, \<^verbatim>\<open>tags\<close> and \<^verbatim>\<open>7\<close>.\<close>

definition example_object_rows :: "decimal NodeRow list" where
  "example_object_rows =
     [\<lparr>key = Some ''name'', value = VStr ''x'', type = ''string''\<rparr>,
      \<lparr>key = Some ''tags'', value = VStr ''[2 items]'', type = ''array''\<rparr>,
      \<lparr>key = Some ''7'', value = VBool True, type = ''boolean''\<rparr>]"

section \<open>Properties\<close>

subsection \<open>normalizeNodeData\<close>

text \<open>
  C6: normalizeNodeData applied to an empty row list returns the string \<^verbatim>\<open>{}\<close>; so it
  does when the rows are absent.
\<close>

theorem normalizeNodeData_empty:
  "normalizeNodeData P (Some []) = ''{}'' \<and> normalizeNodeData P None = ''{}''"
  by (simp add: normalizeNodeData_def)

theorem normalizeNodeData_empty_witness:
  "normalizeNodeData reference_runtime (Some []) = ''{}''"
  using normalizeNodeData_empty [of reference_runtime] by simp

text \<open>
  C7: for a row list of exactly one row that has no key, normalizeNodeData returns the
  string rendering of the value of that row.
\<close>

theorem normalizeNodeData_single_keyless:
  "key row = None \<Longrightarrow> normalizeNodeData P (Some [row]) = ToString P (value row)"
  by (simp add: normalizeNodeData_def)

theorem normalizeNodeData_single_keyless_witness:
  "key \<lparr>key = None, value = VNum (Decimal 42 0), type = ''number''\<rparr> = None
   \<and> normalizeNodeData reference_runtime
         (Some [\<lparr>key = None, value = VNum (Decimal 42 0), type = ''number''\<rparr>]) = ''42''"
proof -
  have k: "key \<lparr>key = None, value = VNum (Decimal 42 0), type = ''number''\<rparr> = None"
    by simp
  have r: "ToString reference_runtime (VNum (Decimal 42 0)) = ''42''"
    by code_simp
  show ?thesis
    using normalizeNodeData_single_keyless [OF k, of reference_runtime] k r by simp
qed

subsection \<open>jsonPathToString\<close>

lemma join_brackets:
  "xs \<noteq> [] \<Longrightarrow> ''['' @ join '']['' xs @ '']'' = concat (map (\<lambda>x. ''['' @ x @ '']'') xs)"
proof (induction xs)
  case Nil
  then show ?case by simp
next
  case (Cons x xs)
  then show ?case by (cases xs) simp_all
qed

text \<open>
  C8: jsonPathToString renders the empty and the absent path as \<^verbatim>\<open>$\<close>, and a path of
  segments in bracket notation, a string segment between double quotes and a numeric
  segment as its digits; the path \<^verbatim>\<open>["a", 0]\<close> renders as \<^verbatim>\<open>$["a"][0]\<close>.
\<close>

theorem jsonPathToString_brackets:
  \<open>jsonPathToString None = ''$''
   \<and> jsonPathToString (Some []) = ''$''
   \<and> jsonPathToString (Some segs)
       = ''$'' @ concat (map (\<lambda>seg. ''['' @ segment_text seg @ '']'') segs)
   \<and> segment_text (SegStr s) = ''"'' @ s @ ''"''
   \<and> segment_text (SegNum n) = show_nat n
   \<and> jsonPathToString (Some [SegStr ''a'', SegNum 0]) = ''$["a"][0]''\<close>
proof -
  have "jsonPathToString (Some segs)
          = ''$'' @ concat (map (\<lambda>seg. ''['' @ segment_text seg @ '']'') segs)"
  proof (cases segs)
    case Nil
    then show ?thesis by (simp add: jsonPathToString_def)
  next
    case (Cons a list)
    then have "map segment_text segs \<noteq> []" by simp
    from join_brackets [OF this] Cons show ?thesis
      by (simp add: jsonPathToString_def comp_def)
  qed
  moreover have \<open>jsonPathToString (Some [SegStr ''a'', SegNum 0]) = ''$["a"][0]''\<close>
    by (simp add: jsonPathToString_def show_nat.simps digit_char_def)
  ultimately show ?thesis
    by (simp add: jsonPathToString_def)
qed

theorem jsonPathToString_brackets_witness:
  \<open>jsonPathToString (Some [SegStr ''customer'', SegStr ''orders'', SegNum 12, SegStr ''id''])
     = ''$["customer"]["orders"][12]["id"]''\<close>
proof -
  have \<open>''$'' @ concat (map (\<lambda>seg. ''['' @ segment_text seg @ '']'')
            [SegStr ''customer'', SegStr ''orders'', SegNum 12, SegStr ''id''])
          = ''$["customer"]["orders"][12]["id"]''\<close>
    by (simp add: show_nat.simps digit_char_def)
  with jsonPathToString_brackets
         [of "[SegStr ''customer'', SegStr ''orders'', SegNum 12, SegStr ''id'']"]
  show ?thesis by simp
qed

subsection \<open>handleSave\<close>

lemma updateJsonAtPath_error:
  "updateJsonAtPath P j p v = Inl e \<Longrightarrow> e = Error update_failed"
  by (auto simp: updateJsonAtPath_def split: sum.splits)

text \<open>
  C1: if updateJsonAtPath fails, the save handler shows an error notification and
  writes neither the JSON store nor the file store: apart from the notification, the
  state is the one before the attempt.
\<close>

theorem handleSave_failure:
  assumes "updateJsonAtPath P (json st) (selectedPath st) (editValue st) = Inl e"
  shows "handleSave P st = st\<lparr>toasts := toasts st @ [ToastError update_failed]\<rparr>
         \<and> json (handleSave P st) = json st
         \<and> contents (handleSave P st) = contents st
         \<and> hasChanges (handleSave P st) = hasChanges st"
proof -
  from assms have e: "e = Error update_failed" by (rule updateJsonAtPath_error)
  with assms have "handleSave P st = st\<lparr>toasts := toasts st @ [ToastError update_failed]\<rparr>"
    by (simp add: handleSave_def update_failed_def)
  then show ?thesis by simp
qed

theorem handleSave_failure_witness:
  \<open>updateJsonAtPath reference_runtime
      (json (example_state (Some [SegStr ''b'', SegStr ''c'']) ''7''))
      (selectedPath (example_state (Some [SegStr ''b'', SegStr ''c'']) ''7''))
      (editValue (example_state (Some [SegStr ''b'', SegStr ''c'']) ''7''))
     = Inl (Error update_failed)
   \<and> json (handleSave reference_runtime (example_state (Some [SegStr ''b'', SegStr ''c'']) ''7''))
     = ''{"a": [1, 2], "b": null}''
   \<and> contents (handleSave reference_runtime (example_state (Some [SegStr ''b'', SegStr ''c'']) ''7''))
     = ''{"a": [1, 2], "b": null}''
   \<and> \<not> hasChanges (handleSave reference_runtime (example_state (Some [SegStr ''b'', SegStr ''c'']) ''7''))
   \<and> toasts (handleSave reference_runtime (example_state (Some [SegStr ''b'', SegStr ''c'']) ''7''))
     = [ToastError ''Failed to update JSON. Please check your input.'']\<close>
proof -
  have h: "updateJsonAtPath reference_runtime
      (json (example_state (Some [SegStr ''b'', SegStr ''c'']) ''7''))
      (selectedPath (example_state (Some [SegStr ''b'', SegStr ''c'']) ''7''))
      (editValue (example_state (Some [SegStr ''b'', SegStr ''c'']) ''7''))
     = Inl (Error update_failed)"
    by code_simp
  from handleSave_failure [OF h] h show ?thesis
    by (simp add: example_state_def example_document_def update_failed_def)
qed

text \<open>
  C2: when the edited text can be applied at the path of the selected node, saving puts
  the re-serialized document into the file store with the flag of unsaved changes set,
  puts the same string into the JSON store, and shows a success notification.
\<close>

theorem handleSave_success:
  assumes "updateJsonAtPath P (json st) (selectedPath st) (editValue st) = Inr updatedJson"
  shows "handleSave P st =
           st\<lparr>contents := updatedJson, hasChanges := True, json := updatedJson,
              originalValue := editValue st, isEditing := False,
              toasts := toasts st @ [ToastSuccess ''Node value updated successfully!'']\<rparr>
         \<and> (\<exists>doc. updatedJson = JSON_stringify P doc)"
proof -
  from assms have "\<exists>doc. updatedJson = JSON_stringify P doc"
    by (auto simp: updateJsonAtPath_def updateJsonAtPath_try_def
             split: sum.splits option.splits if_splits)
  with assms show ?thesis
    by (simp add: handleSave_def)
qed

theorem handleSave_success_witness:
  \<open>updateJsonAtPath reference_runtime
      (json (example_state (Some [SegStr ''a'', SegNum 0]) ''{"x": true}''))
      (selectedPath (example_state (Some [SegStr ''a'', SegNum 0]) ''{"x": true}''))
      (editValue (example_state (Some [SegStr ''a'', SegNum 0]) ''{"x": true}''))
     = Inr ''{\<newline>  "a": [\<newline>    {\<newline>      "x": true\<newline>    },\<newline>    2\<newline>  ],\<newline>  "b": null\<newline>}''
   \<and> handleSave reference_runtime (example_state (Some [SegStr ''a'', SegNum 0]) ''{"x": true}'')
     = (example_state (Some [SegStr ''a'', SegNum 0]) ''{"x": true}'')
         \<lparr>contents := ''{\<newline>  "a": [\<newline>    {\<newline>      "x": true\<newline>    },\<newline>    2\<newline>  ],\<newline>  "b": null\<newline>}'',
          hasChanges := True,
          json := ''{\<newline>  "a": [\<newline>    {\<newline>      "x": true\<newline>    },\<newline>    2\<newline>  ],\<newline>  "b": null\<newline>}'',
          originalValue := ''{"x": true}'',
          isEditing := False,
          toasts := [ToastSuccess ''Node value updated successfully!'']\<rparr>\<close>
proof -
  have h: \<open>updateJsonAtPath reference_runtime
      (json (example_state (Some [SegStr ''a'', SegNum 0]) ''{"x": true}''))
      (selectedPath (example_state (Some [SegStr ''a'', SegNum 0]) ''{"x": true}''))
      (editValue (example_state (Some [SegStr ''a'', SegNum 0]) ''{"x": true}''))
     = Inr ''{\<newline>  "a": [\<newline>    {\<newline>      "x": true\<newline>    },\<newline>    2\<newline>  ],\<newline>  "b": null\<newline>}''\<close>
    by code_simp
  from handleSave_success [OF h] h show ?thesis
    by (simp add: example_state_def)
qed


subsection \<open>Objects as lists of members\<close>

lemma map_of_replace:
  "map_of (map (\<lambda>p. if fst p = k then (k, v) else p) ps) k'
     = (if k' = k then (if k \<in> fst ` set ps then Some v else None) else map_of ps k')"
  by (induction ps) (auto simp: rev_image_eqI)

lemma map_of_insert_index:
  "k \<notin> fst ` set ps \<Longrightarrow>
     map_of (insert_index i k v ps) k' = (if k' = k then Some v else map_of ps k')"
  by (induction ps) (auto split: option.splits)

lemma map_of_absent: "k \<notin> fst ` set ps \<Longrightarrow> map_of ps k = None"
  by (simp add: map_of_eq_None_iff)

lemma map_of_obj_define:
  "map_of (obj_define k v ps) k' = (if k' = k then Some v else map_of ps k')"
  by (auto simp: obj_define_def map_of_replace map_of_insert_index map_of_absent map_add_def
           split: option.splits)

lemma map_of_Some_key: "map_of ps k = Some v \<Longrightarrow> k \<in> fst ` set ps"
  by (meson domI domIff map_of_absent)

lemma member_set_member_JObj:
  "member (set_member k v (JObj ps)) k'
     = (if k' = k \<and> (k \<in> fst ` set ps \<or> k \<noteq> ''__proto__'') then Some v else map_of ps k')"
  by (auto simp: map_of_obj_define map_of_absent)

subsection \<open>Array indices are canonical\<close>

lemma digits_value_snoc:
  "digits_value (s @ [c]) = 10 * digits_value s + ((of_char c :: nat) - 48)"
  by (simp add: digits_value_def)

lemma digit_char_of_char:
  assumes "is_digit c"
  shows "digit_char ((of_char c :: nat) - 48) = c"
proof -
  define n where "n = (of_char c :: nat)"
  from assms have n: "n \<in> {48, 49, 50, 51, 52, 53, 54, 55, 56, 57}"
    unfolding is_digit_def n_def [symmetric] by (simp; arith)
  have "digit_char (k - 48) = char_of k"
    if "k \<in> {48, 49, 50, 51, 52, 53, 54, 55, 56, 57}" for k :: nat
    using that by (elim insertE emptyE; hypsubst; code_simp)
  from this [OF n] show ?thesis
    by (simp add: n_def)
qed


lemma digit_char_add: "digit_char (10 * a + d) = digit_char d"
  by (simp add: digit_char_def)

lemma show_nat_digit: "d < 10 \<Longrightarrow> show_nat d = [digit_char d]"
  by (subst show_nat.simps) simp

lemma show_nat_snoc:
  "0 < a \<Longrightarrow> d < 10 \<Longrightarrow> show_nat (10 * a + d) = show_nat a @ [digit_char d]"
  by (subst show_nat.simps) (simp add: digit_char_add)

lemma is_digit_bound: "is_digit c \<Longrightarrow> (of_char c :: nat) - 48 < 10"
  by (auto simp: is_digit_def)

lemma show_nat_digits_value:
  "s \<noteq> [] \<Longrightarrow> list_all is_digit s \<Longrightarrow> (hd s = CHR ''0'' \<longrightarrow> s = ''0'')
     \<Longrightarrow> show_nat (digits_value s) = s"
proof (induction s rule: rev_induct)
  case Nil
  then show ?case by simp
next
  case (snoc c t)
  from snoc.prems have c: "is_digit c" by simp
  show ?case
  proof (cases "t = []")
    case True
    with c show ?thesis
      by (simp add: digits_value_def show_nat_digit is_digit_bound digit_char_of_char)
  next
    case False
    with snoc.prems have nz: "hd t \<noteq> CHR ''0''" by auto
    with snoc.IH snoc.prems False have t: "show_nat (digits_value t) = t" by simp
    have "0 < digits_value t"
    proof (rule ccontr)
      assume "\<not> 0 < digits_value t"
      with t have "t = [digit_char 0]" by (simp add: show_nat_digit)
      with nz show False by (simp add: digit_char_def)
    qed
    with c t show ?thesis
      by (simp add: digits_value_snoc show_nat_snoc is_digit_bound digit_char_of_char)
  qed
qed

lemma array_index_canonical:
  assumes "array_index s = Some n"
  shows "s = show_nat n"
proof -
  from assms have "s \<noteq> []" and "list_all is_digit s"
    and "hd s = CHR ''0'' \<longrightarrow> s = ''0''" and "n = digits_value s"
    by (simp_all add: array_index_def split: if_splits)
  then show ?thesis
    using show_nat_digits_value [of s] by simp
qed

lemma array_index_inject:
  assumes "array_index a = Some i" and "array_index b = Some i"
  shows "a = b"
proof -
  from assms have "a = show_nat i" and "b = show_nat i"
    by (simp_all add: array_index_canonical)
  then show ?thesis by simp
qed


subsection \<open>The store\<close>

lemma member_is_container: "member c k = Some v \<Longrightarrow> is_container c"
  by (cases c) auto

lemma member_set_member_same:
  "member doc k = Some c \<Longrightarrow> member (set_member k x doc) k = Some x"
  by (cases doc)
    (auto simp: member_set_member_JObj map_of_Some_key arr_set_def
          simp del: set_member.simps(1) split: option.splits if_splits)

lemma member_set_member_other:
  assumes "member doc k = Some c" and "k' \<noteq> k"
  shows "member (set_member k x doc) k' = member doc k'"
proof (cases doc)
  case (JObj ps)
  with assms(2) show ?thesis
    by (simp add: member_set_member_JObj del: set_member.simps(1))
next
  case (JArr xs)
  with assms(1) obtain i where i: "array_index k = Some i" "i < length xs"
    by (auto split: option.splits if_splits)
  show ?thesis
  proof (cases "array_index k'")
    case None
    with JArr show ?thesis by simp
  next
    case (Some j)
    with assms(2) i(1) have "j \<noteq> i" using array_index_inject by blast
    with JArr i Some show ?thesis by (simp add: arr_set_def)
  qed
qed (use assms in auto)

lemma deref_append:
  "deref doc (p @ q) = (case deref doc p of None \<Rightarrow> None | Some c \<Rightarrow> deref c q)"
  by (induction p arbitrary: doc) (auto split: option.splits)

lemma modify_at_below:
  "deref doc p = Some cur \<Longrightarrow> deref (modify_at doc p f) (p @ r) = deref (f cur) r"
proof (induction p arbitrary: doc)
  case Nil
  then show ?case by simp
next
  case (Cons k ks)
  then obtain c where c: "member doc k = Some c" and cur: "deref c ks = Some cur"
    by (auto split: option.splits)
  from Cons.IH [OF cur] c show ?case
    by (simp add: member_set_member_same)
qed

lemma modify_at_frame:
  assumes "deref doc p = Some cur"
    and "\<And>k' r. k' \<noteq> k \<Longrightarrow> deref (f cur) (k' # r) = deref cur (k' # r)"
    and "\<not> prefix (p @ [k]) q" and "\<not> prefix q (p @ [k])"
  shows "deref (modify_at doc p f) q = deref doc q"
  using assms(1, 3, 4)
proof (induction p arbitrary: doc q)
  case Nil
  then obtain k' r where q: "q = k' # r" by (cases q) auto
  with Nil assms(2) [of k' r] show ?case by auto
next
  case (Cons a p)
  from Cons.prems obtain k' r where q: "q = k' # r" by (cases q) auto
  from Cons.prems(1) obtain c where c: "member doc a = Some c" and cur: "deref c p = Some cur"
    by (auto split: option.splits)
  show ?case
  proof (cases "k' = a")
    case True
    with Cons.prems q have "\<not> prefix (p @ [k]) r" and "\<not> prefix r (p @ [k])"
      by simp_all
    from Cons.IH [OF cur this] c q True show ?thesis
      by (simp add: member_set_member_same)
  next
    case False
    with c q show ?thesis
      by (simp add: member_set_member_other)
  qed
qed

lemma navigate_reference:
  "deref doc (p @ map prop_key segs) = Some c \<Longrightarrow> is_container c \<Longrightarrow>
     navigate doc (Reference p) segs = Inr (Reference (p @ map prop_key segs))"
proof (induction segs arbitrary: p)
  case Nil
  then show ?case by simp
next
  case (Cons s segs)
  from Cons.prems(1) have at: "deref doc ((p @ [prop_key s]) @ map prop_key segs) = Some c"
    by simp
  then obtain cur v where cur: "deref doc p = Some cur" and v: "member cur (prop_key s) = Some v"
    and below: "deref v (map prop_key segs) = Some c"
    by (auto simp: deref_append split: option.splits)
  have "is_container v"
  proof (cases segs)
    case Nil
    with below Cons.prems(2) show ?thesis by simp
  next
    case (Cons t ts)
    with below show ?thesis by (auto split: option.splits dest: member_is_container)
  qed
  with cur v have "js_get doc (Reference p) (prop_key s) = Inr (Reference (p @ [prop_key s]))"
    by (simp add: js_value_def)
  with Cons.IH [OF at Cons.prems(2)] show ?case by simp
qed

lemma set_member_existing:
  assumes "member cur k = Some old"
  shows "deref (set_member k v cur) [k] = Some v"
    and "k' \<noteq> k \<Longrightarrow> deref (set_member k v cur) (k' # r) = deref cur (k' # r)"
  using assms by (simp_all add: member_set_member_same member_set_member_other)

text \<open>
  C3: the edited text is parsed as JSON; the parsed value when that succeeds, and the
  text itself as a string when it fails, is placed at the path of the node, and the
  whole document is serialized again: the result is the serialization of a document that
  has this value at the path and the values of the old document at the paths that are
  not on one line with it.
\<close>

theorem updateJsonAtPath_places_value:
  assumes "JSON_parse P src = Some doc"
    and "value_at doc (segments_of p) = Some old"
  shows "\<exists>doc'. updateJsonAtPath P src p newValue = Inr (JSON_stringify P doc')
           \<and> value_at doc' (segments_of p)
               = Some (case JSON_parse P newValue of Some v \<Rightarrow> v | None \<Rightarrow> JStr newValue)
           \<and> (\<forall>q. \<not> on_one_line (segments_of p) q \<longrightarrow> value_at doc' q = value_at doc q)"
proof (cases "segments_of p = []")
  case True
  with assms(1) show ?thesis
    by (auto simp: updateJsonAtPath_def updateJsonAtPath_try_def parsedValue_def segments_of_def
                   value_at_def on_one_line_def
             split: option.splits)
next
  case False
  then obtain segs where p: "p = Some segs" and segs: "segs \<noteq> []"
    by (auto simp: segments_of_def split: option.splits)
  let ?pre = "map prop_key (butlast segs)" and ?k = "prop_key (last segs)"
  let ?v = "parsedValue P newValue"
  from segs have split: "map prop_key segs = ?pre @ [?k]"
    by (metis append_butlast_last_id list.simps(8,9) map_append)
  with assms(2) p have "deref doc (?pre @ [?k]) = Some old"
    by (simp add: segments_of_def value_at_def)
  then obtain cur where cur: "deref doc ?pre = Some cur" and old: "member cur ?k = Some old"
    by (auto simp: deref_append split: option.splits)
  from old have container: "is_container cur" by (rule member_is_container)
  from cur have "deref doc ([] @ ?pre) = Some cur" by simp
  from navigate_reference [OF this container]
  have nav: "navigate doc (Reference []) (butlast segs) = Inr (Reference ?pre)" by simp
  have root: "js_value doc [] = Reference []"
  proof (cases "butlast segs")
    case Nil
    with cur container show ?thesis by (simp add: js_value_def)
  next
    case (Cons t ts)
    with cur show ?thesis
      by (auto simp: js_value_def split: option.splits dest: member_is_container)
  qed
  let ?doc' = "modify_at doc ?pre (set_member ?k ?v)"
  from assms(1) p segs nav root
  have "updateJsonAtPath P src p newValue = Inr (JSON_stringify P ?doc')"
    by (simp add: updateJsonAtPath_def updateJsonAtPath_try_def)
  moreover from modify_at_below [OF cur, of "set_member ?k ?v" "[?k]"] old split p
  have "value_at ?doc' (segments_of p) = Some ?v"
    by (simp add: segments_of_def value_at_def member_set_member_same)
  moreover have "value_at ?doc' q = value_at doc q" if "\<not> on_one_line (segments_of p) q" for q
  proof -
    from that split p have "\<not> prefix (?pre @ [?k]) (map prop_key q)"
      and "\<not> prefix (map prop_key q) (?pre @ [?k])"
      by (simp_all add: segments_of_def on_one_line_def)
    with cur set_member_existing(2) [OF old] show ?thesis
      unfolding value_at_def by (rule modify_at_frame)
  qed
  ultimately show ?thesis
    by (auto simp: parsedValue_def)
qed

theorem updateJsonAtPath_places_value_witness:
  \<open>JSON_parse reference_runtime example_document = Some example_value
   \<and> value_at example_value (segments_of (Some [SegStr ''a'', SegNum 0]))
       = Some (JNum (Decimal 1 0))
   \<and> (\<exists>doc'. updateJsonAtPath reference_runtime example_document
                  (Some [SegStr ''a'', SegNum 0]) ''{"x": true}''
                = Inr (JSON_stringify reference_runtime doc')
          \<and> value_at doc' [SegStr ''a'', SegNum 0] = Some (JObj [(''x'', JBool True)])
          \<and> value_at doc' [SegStr ''a'', SegNum 1] = Some (JNum (Decimal 2 0))
          \<and> value_at doc' [SegStr ''b''] = Some JNull)
   \<and> (\<exists>doc'. updateJsonAtPath reference_runtime example_document
                  (Some [SegStr ''a'', SegNum 0]) ''hello''
                = Inr (JSON_stringify reference_runtime doc')
          \<and> value_at doc' [SegStr ''a'', SegNum 0] = Some (JStr ''hello''))\<close>
proof -
  let ?p = "Some [SegStr ''a'', SegNum 0]"
  have doc: "JSON_parse reference_runtime example_document = Some example_value"
    by code_simp
  have old: "value_at example_value (segments_of ?p) = Some (JNum (Decimal 1 0))"
    by code_simp
  have parsed: \<open>JSON_parse reference_runtime ''{"x": true}'' = Some (JObj [(''x'', JBool True)])\<close>
    by code_simp
  have raw: "JSON_parse reference_runtime ''hello'' = None"
    by code_simp
  have sibling: "\<not> on_one_line (segments_of ?p) [SegStr ''a'', SegNum 1]"
    by code_simp
  have other: "\<not> on_one_line (segments_of ?p) [SegStr ''b'']"
    by code_simp
  have at_sibling: "value_at example_value [SegStr ''a'', SegNum 1] = Some (JNum (Decimal 2 0))"
    by code_simp
  have at_other: "value_at example_value [SegStr ''b''] = Some JNull"
    by code_simp
  have seg: "segments_of ?p = [SegStr ''a'', SegNum 0]"
    by (simp add: segments_of_def)
  from updateJsonAtPath_places_value [OF doc old, of \<open>''{"x": true}''\<close>]
  obtain doc' where
    "updateJsonAtPath reference_runtime example_document ?p ''{\"x\": true}''
       = Inr (JSON_stringify reference_runtime doc')"
    "value_at doc' (segments_of ?p)
       = Some (case JSON_parse reference_runtime ''{\"x\": true}'' of Some v \<Rightarrow> v
               | None \<Rightarrow> JStr ''{\"x\": true}'')"
    "\<forall>q. \<not> on_one_line (segments_of ?p) q \<longrightarrow> value_at doc' q = value_at example_value q"
    by blast
  with parsed sibling other at_sibling at_other seg
  have first: \<open>\<exists>doc'. updateJsonAtPath reference_runtime example_document ?p ''{"x": true}''
                = Inr (JSON_stringify reference_runtime doc')
          \<and> value_at doc' [SegStr ''a'', SegNum 0] = Some (JObj [(''x'', JBool True)])
          \<and> value_at doc' [SegStr ''a'', SegNum 1] = Some (JNum (Decimal 2 0))
          \<and> value_at doc' [SegStr ''b''] = Some JNull\<close>
    by (intro exI [of _ doc']) simp
  from updateJsonAtPath_places_value [OF doc old, of "''hello''"] raw seg
  have second: "\<exists>doc'. updateJsonAtPath reference_runtime example_document ?p ''hello''
                = Inr (JSON_stringify reference_runtime doc')
          \<and> value_at doc' [SegStr ''a'', SegNum 0] = Some (JStr ''hello'')"
    by auto
  from doc old first second show ?thesis
    by blast
qed

text \<open>
  C10: when all segments but the last lead to an object of the document,
  updateJsonAtPath leaves the value at every other place of the document as it was: at
  every path that is not on one line with the target, that is, that neither leads to the
  target nor lies at or below it, the segments compared by the property names they
  denote. Only the value at the target differs: it is the edited value, unless the last
  segment is the name \<^verbatim>\<open>__proto__\<close> and the object does not own it, where the assignment
  writes nothing.
\<close>

theorem updateJsonAtPath_frame:
  assumes "JSON_parse P src = Some doc"
    and "segs \<noteq> []"
    and "value_at doc (butlast segs) = Some (JObj ps)"
  shows "\<exists>doc'. updateJsonAtPath P src (Some segs) newValue = Inr (JSON_stringify P doc')
           \<and> (\<forall>q. \<not> on_one_line segs q \<longrightarrow> value_at doc' q = value_at doc q)
           \<and> (prop_key (last segs) \<noteq> ''__proto__'' \<or> prop_key (last segs) \<in> fst ` set ps \<longrightarrow>
                value_at doc' segs
                  = Some (case JSON_parse P newValue of Some v \<Rightarrow> v | None \<Rightarrow> JStr newValue))"
proof -
  let ?pre = "map prop_key (butlast segs)" and ?k = "prop_key (last segs)"
  let ?v = "parsedValue P newValue"
  let ?doc' = "modify_at doc ?pre (set_member ?k ?v)"
  from assms(2) have split: "map prop_key segs = ?pre @ [?k]"
    by (metis append_butlast_last_id list.simps(8,9) map_append)
  from assms(3) have cur: "deref doc ?pre = Some (JObj ps)"
    by (simp add: value_at_def)
  then have "deref doc ([] @ ?pre) = Some (JObj ps)" by simp
  from navigate_reference [OF this]
  have nav: "navigate doc (Reference []) (butlast segs) = Inr (Reference ?pre)" by simp
  have root: "js_value doc [] = Reference []"
  proof (cases "butlast segs")
    case Nil
    with cur show ?thesis by (simp add: js_value_def)
  next
    case (Cons t ts)
    with cur show ?thesis
      by (auto simp: js_value_def split: option.splits dest: member_is_container)
  qed
  from assms(1, 2) nav root
  have "updateJsonAtPath P src (Some segs) newValue = Inr (JSON_stringify P ?doc')"
    by (simp add: updateJsonAtPath_def updateJsonAtPath_try_def)
  moreover have "value_at ?doc' q = value_at doc q" if "\<not> on_one_line segs q" for q
  proof -
    from that split have "\<not> prefix (?pre @ [?k]) (map prop_key q)"
      and "\<not> prefix (map prop_key q) (?pre @ [?k])"
      by (simp_all add: on_one_line_def)
    moreover have "deref (set_member ?k ?v (JObj ps)) (k' # r) = deref (JObj ps) (k' # r)"
      if "k' \<noteq> ?k" for k' r
      using that by (simp add: member_set_member_JObj del: set_member.simps(1))
    ultimately show ?thesis
      using cur unfolding value_at_def by (intro modify_at_frame) auto
  qed
  moreover have "value_at ?doc' segs = Some ?v"
    if "?k \<noteq> ''__proto__'' \<or> ?k \<in> fst ` set ps"
  proof -
    from that have "?k \<in> fst ` set ps \<or> ?k \<noteq> ''__proto__''"
      by blast
    then have "member (set_member ?k ?v (JObj ps)) ?k = Some ?v"
      by (simp only: member_set_member_JObj simp_thms if_True)
    with modify_at_below [OF cur, of "set_member ?k ?v" "[?k]"] split show ?thesis
      by (simp add: value_at_def)
  qed
  ultimately show ?thesis
    unfolding parsedValue_def by blast
qed

theorem updateJsonAtPath_frame_witness:
  \<open>JSON_parse reference_runtime nested_document = Some nested_value
   \<and> [SegStr ''o'', SegStr ''x''] \<noteq> []
   \<and> value_at nested_value (butlast [SegStr ''o'', SegStr ''x''])
       = Some (JObj [(''x'', JNum (Decimal 1 0)), (''y'', JArr [JNum (Decimal 2 0)])])
   \<and> prop_key (last [SegStr ''o'', SegStr ''x'']) \<noteq> ''__proto__''
   \<and> (\<exists>doc'. updateJsonAtPath reference_runtime nested_document
                  (Some [SegStr ''o'', SegStr ''x'']) ''[true]''
                = Inr (JSON_stringify reference_runtime doc')
          \<and> value_at doc' [SegStr ''o'', SegStr ''y'', SegNum 0] = Some (JNum (Decimal 2 0))
          \<and> value_at doc' [SegStr ''b''] = Some JNull
          \<and> value_at doc' [SegStr ''c''] = None
          \<and> value_at doc' [SegStr ''o'', SegStr ''x''] = Some (JArr [JBool True]))
   \<and> updateJsonAtPath reference_runtime nested_document
         (Some [SegStr ''o'', SegStr ''x'']) ''[true]''
       = Inr ''{\<newline>  "o": {\<newline>    "x": [\<newline>      true\<newline>    ],\<newline>    "y": [\<newline>      2\<newline>    ]\<newline>  },\<newline>  "b": null\<newline>}''
   \<and> JSON_parse reference_runtime
         ''{\<newline>  "o": {\<newline>    "x": [\<newline>      true\<newline>    ],\<newline>    "y": [\<newline>      2\<newline>    ]\<newline>  },\<newline>  "b": null\<newline>}''
       = Some (JObj [(''o'', JObj [(''x'', JArr [JBool True]), (''y'', JArr [JNum (Decimal 2 0)])]),
                     (''b'', JNull)])\<close>
proof -
  let ?segs = "[SegStr ''o'', SegStr ''x'']"
  have doc: "JSON_parse reference_runtime nested_document = Some nested_value"
    by code_simp
  have segs: "?segs \<noteq> []"
    by simp
  have parent: "value_at nested_value (butlast ?segs)
       = Some (JObj [(''x'', JNum (Decimal 1 0)), (''y'', JArr [JNum (Decimal 2 0)])])"
    by code_simp
  have name: "prop_key (last ?segs) \<noteq> ''__proto__''"
    by simp
  have parsed: "JSON_parse reference_runtime ''[true]'' = Some (JArr [JBool True])"
    by code_simp
  have sibling: "\<not> on_one_line ?segs [SegStr ''o'', SegStr ''y'', SegNum 0]"
    by code_simp
  have other: "\<not> on_one_line ?segs [SegStr ''b'']"
    by code_simp
  have absent: "\<not> on_one_line ?segs [SegStr ''c'']"
    by code_simp
  have at_sibling: "value_at nested_value [SegStr ''o'', SegStr ''y'', SegNum 0] = Some (JNum (Decimal 2 0))"
    by code_simp
  have at_other: "value_at nested_value [SegStr ''b''] = Some JNull"
    by code_simp
  have at_absent: "value_at nested_value [SegStr ''c''] = None"
    by code_simp
  from updateJsonAtPath_frame [OF doc segs parent, of "''[true]''"] name
  obtain doc' where
    "updateJsonAtPath reference_runtime nested_document (Some ?segs) ''[true]''
       = Inr (JSON_stringify reference_runtime doc')"
    "\<forall>q. \<not> on_one_line ?segs q \<longrightarrow> value_at doc' q = value_at nested_value q"
    "value_at doc' ?segs
       = Some (case JSON_parse reference_runtime ''[true]'' of Some v \<Rightarrow> v
               | None \<Rightarrow> JStr ''[true]'')"
    by blast
  with sibling other absent at_sibling at_other at_absent parsed
  have "\<exists>doc'. updateJsonAtPath reference_runtime nested_document (Some ?segs) ''[true]''
                = Inr (JSON_stringify reference_runtime doc')
          \<and> value_at doc' [SegStr ''o'', SegStr ''y'', SegNum 0] = Some (JNum (Decimal 2 0))
          \<and> value_at doc' [SegStr ''b''] = Some JNull
          \<and> value_at doc' [SegStr ''c''] = None
          \<and> value_at doc' ?segs = Some (JArr [JBool True])"
    by (intro exI [of _ doc']) simp
  moreover have \<open>updateJsonAtPath reference_runtime nested_document (Some ?segs) ''[true]''
       = Inr ''{\<newline>  "o": {\<newline>    "x": [\<newline>      true\<newline>    ],\<newline>    "y": [\<newline>      2\<newline>    ]\<newline>  },\<newline>  "b": null\<newline>}''\<close>
    by code_simp
  moreover have \<open>JSON_parse reference_runtime
         ''{\<newline>  "o": {\<newline>    "x": [\<newline>      true\<newline>    ],\<newline>    "y": [\<newline>      2\<newline>    ]\<newline>  },\<newline>  "b": null\<newline>}''
       = Some (JObj [(''o'', JObj [(''x'', JArr [JBool True]), (''y'', JArr [JNum (Decimal 2 0)])]),
                     (''b'', JNull)])\<close>
    by code_simp
  ultimately show ?thesis
    using doc segs parent name by blast
qed

subsection \<open>The root of the document\<close>

text \<open>
  C4, as stated: for every document string, an absent or empty path makes the result
  the serialization of the edited value alone. It fails on a document that is not JSON:
  the document is parsed before the path is looked at.
\<close>

theorem updateJsonAtPath_root_counterexample:
  \<open>updateJsonAtPath reference_runtime ''{"a": 1,}'' (Some []) ''1'' = Inl (Error update_failed)
   \<and> updateJsonAtPath reference_runtime ''{"a": 1,}'' (Some []) ''1''
       \<noteq> Inr (JSON_stringify reference_runtime (JNum (Decimal 1 0)))
   \<and> updateJsonAtPath reference_runtime ''{"a": 1}'' (Some []) ''1''
       = Inr (JSON_stringify reference_runtime (JNum (Decimal 1 0)))\<close>
  by code_simp

text \<open>
  C4, amended: for every document string that parses as JSON, an absent or empty path
  makes the result the serialization of the edited value alone (the parsed value, or the
  text as a string), whatever the document contains. On a document string that is not
  JSON, updateJsonAtPath throws the update error, whatever the path.
\<close>

theorem updateJsonAtPath_root:
  "(JSON_parse P src = Some doc \<and> (p = None \<or> p = Some []) \<longrightarrow>
      updateJsonAtPath P src p newValue
        = Inr (JSON_stringify P
                 (case JSON_parse P newValue of Some v \<Rightarrow> v | None \<Rightarrow> JStr newValue)))
   \<and> (JSON_parse P src = None \<longrightarrow>
        updateJsonAtPath P src p newValue = Inl (Error update_failed))"
  by (auto simp: updateJsonAtPath_def updateJsonAtPath_try_def parsedValue_def)

theorem updateJsonAtPath_root_witness:
  \<open>JSON_parse reference_runtime example_document = Some example_value
   \<and> updateJsonAtPath reference_runtime example_document None ''hello'' = Inr ''"hello"''
   \<and> updateJsonAtPath reference_runtime example_document (Some []) ''[1]''
       = Inr ''[\<newline>  1\<newline>]''
   \<and> JSON_parse reference_runtime ''{"a": 1,}'' = None
   \<and> updateJsonAtPath reference_runtime ''{"a": 1,}'' (Some [SegStr ''a'']) ''2''
       = Inl (Error ''Failed to update JSON. Please check your input.'')\<close>
proof -
  have doc: "JSON_parse reference_runtime example_document = Some example_value"
    by code_simp
  have bad: \<open>JSON_parse reference_runtime ''{"a": 1,}'' = None\<close>
    by code_simp
  have raw: \<open>JSON_stringify reference_runtime
          (case JSON_parse reference_runtime ''hello'' of Some v \<Rightarrow> v | None \<Rightarrow> JStr ''hello'')
        = ''"hello"''\<close>
    by code_simp
  have parsed: \<open>JSON_stringify reference_runtime
          (case JSON_parse reference_runtime ''[1]'' of Some v \<Rightarrow> v | None \<Rightarrow> JStr ''[1]'')
        = ''[\<newline>  1\<newline>]''\<close>
    by code_simp
  from updateJsonAtPath_root
         [where P = reference_runtime and src = example_document and doc = example_value
            and p = None and newValue = "''hello''"]
       doc raw
  have first: \<open>updateJsonAtPath reference_runtime example_document None ''hello'' = Inr ''"hello"''\<close>
    by simp
  from updateJsonAtPath_root
         [where P = reference_runtime and src = example_document and doc = example_value
            and p = "Some []" and newValue = "''[1]''"]
       doc parsed
  have second: \<open>updateJsonAtPath reference_runtime example_document (Some []) ''[1]''
       = Inr ''[\<newline>  1\<newline>]''\<close>
    by simp
  from updateJsonAtPath_root
         [where P = reference_runtime and src = \<open>''{"a": 1,}''\<close>
            and p = "Some [SegStr ''a'']" and newValue = "''2''"]
       bad
  have third: \<open>updateJsonAtPath reference_runtime ''{"a": 1,}'' (Some [SegStr ''a'']) ''2''
       = Inl (Error ''Failed to update JSON. Please check your input.'')\<close>
    by (simp add: update_failed_def)
  from doc first second bad third show ?thesis
    by simp
qed

subsection \<open>Cancel\<close>

lemma step_originalValue:
  "\<not> (ev = SaveClick \<and> isEditing st \<and> save_succeeds P st) \<Longrightarrow>
     originalValue (step P st ev) = originalValue st"
proof (cases ev)
  case SaveClick
  assume "\<not> (ev = SaveClick \<and> isEditing st \<and> save_succeeds P st)"
  with SaveClick show ?thesis
    by (auto simp: save_succeeds_def handleSave_def split: sum.splits exn.splits)
qed (simp_all add: handleEdit_def setEditValue_def handleCancel_def)

lemma run_originalValue:
  "no_save_succeeds P st evs \<Longrightarrow> originalValue (run P st evs) = originalValue st"
proof (induction evs arbitrary: st)
  case Nil
  then show ?case by (simp add: run_def)
next
  case (Cons ev evs)
  from Cons.prems have quiet: "\<not> (ev = SaveClick \<and> isEditing st \<and> save_succeeds P st)"
    and rest: "no_save_succeeds P (step P st ev) evs"
    by (auto split: if_splits)
  from Cons.IH [OF rest] step_originalValue [OF quiet] show ?case
    by (simp add: run_def)
qed

text \<open>
  C9: cancel restores the displayed value to the last-saved value and leaves edit mode,
  whatever has been clicked and typed since, as long as no save has succeeded since: the
  value is the normalized node data set when the modal opened, or the text stored by the
  most recent successful save.
\<close>

theorem handleCancel_restores_last_saved:
  "(opened st \<and> selectedNode st = Some node \<and> no_save_succeeds P (openEffect P st) evs \<longrightarrow>
      editValue (handleCancel (run P (openEffect P st) evs))
        = normalizeNodeData P (Some (case text node of None \<Rightarrow> [] | Some rows \<Rightarrow> rows))
      \<and> \<not> isEditing (handleCancel (run P (openEffect P st) evs)))
   \<and> (updateJsonAtPath P (json st) (selectedPath st) (editValue st) = Inr updatedJson
        \<and> no_save_succeeds P (handleSave P st) evs \<longrightarrow>
      editValue (handleCancel (run P (handleSave P st) evs)) = editValue st
      \<and> \<not> isEditing (handleCancel (run P (handleSave P st) evs)))"
proof -
  have cancel: "editValue (handleCancel s) = originalValue s \<and> \<not> isEditing (handleCancel s)"
    for s :: "'a modal"
    by (simp add: handleCancel_def)
  have at_open: "originalValue (openEffect P st)
       = normalizeNodeData P (Some (case text node of None \<Rightarrow> [] | Some rows \<Rightarrow> rows))"
    if "opened st" and "selectedNode st = Some node"
    using that by (simp add: openEffect_def Let_def split: option.splits)
  have at_save: "originalValue (handleSave P st) = editValue st"
    if "updateJsonAtPath P (json st) (selectedPath st) (editValue st) = Inr updatedJson"
    using that by (simp add: handleSave_def)
  show ?thesis
    using cancel at_open at_save by (simp add: run_originalValue)
qed

theorem handleCancel_restores_last_saved_witness:
  \<open>opened (example_state (Some [SegStr ''b'', SegStr ''c'']) ''zzz'')
   \<and> selectedNode (example_state (Some [SegStr ''b'', SegStr ''c'']) ''zzz'')
       = Some \<lparr>text = Some [\<lparr>key = None, value = VNum (Decimal 1 0), type = ''number''\<rparr>],
                path = Some [SegStr ''b'', SegStr ''c'']\<rparr>
   \<and> no_save_succeeds reference_runtime
         (openEffect reference_runtime (example_state (Some [SegStr ''b'', SegStr ''c'']) ''zzz''))
         [EditClick, Change ''2'', Change ''23'', SaveClick, Change ''5'']
   \<and> editValue (handleCancel (run reference_runtime
         (openEffect reference_runtime (example_state (Some [SegStr ''b'', SegStr ''c'']) ''zzz''))
         [EditClick, Change ''2'', Change ''23'', SaveClick, Change ''5''])) = ''1''
   \<and> updateJsonAtPath reference_runtime
         (json (example_state (Some [SegStr ''a'', SegNum 0]) ''{"x": true}''))
         (selectedPath (example_state (Some [SegStr ''a'', SegNum 0]) ''{"x": true}''))
         (editValue (example_state (Some [SegStr ''a'', SegNum 0]) ''{"x": true}''))
       = Inr ''{\<newline>  "a": [\<newline>    {\<newline>      "x": true\<newline>    },\<newline>    2\<newline>  ],\<newline>  "b": null\<newline>}''
   \<and> no_save_succeeds reference_runtime
         (handleSave reference_runtime (example_state (Some [SegStr ''a'', SegNum 0]) ''{"x": true}''))
         [EditClick, Change ''oops'']
   \<and> editValue (handleCancel (run reference_runtime
         (handleSave reference_runtime (example_state (Some [SegStr ''a'', SegNum 0]) ''{"x": true}''))
         [EditClick, Change ''oops''])) = ''{"x": true}''\<close>
proof -
  let ?st1 = "example_state (Some [SegStr ''b'', SegStr ''c'']) ''zzz''"
  let ?evs1 = "[EditClick, Change ''2'', Change ''23'', SaveClick, Change ''5'']"
  let ?st2 = \<open>example_state (Some [SegStr ''a'', SegNum 0]) ''{"x": true}''\<close>
  let ?evs2 = "[EditClick, Change ''oops'']"
  let ?node = "\<lparr>text = Some [\<lparr>key = None, value = VNum (Decimal 1 0), type = ''number''\<rparr>],
                path = Some [SegStr ''b'', SegStr ''c'']\<rparr>"
  have o: "opened ?st1" and n: "selectedNode ?st1 = Some ?node"
    by (simp_all add: example_state_def)
  have q1: "no_save_succeeds reference_runtime (openEffect reference_runtime ?st1) ?evs1"
    by code_simp
  have v: "normalizeNodeData reference_runtime
             (Some (case text ?node of None \<Rightarrow> [] | Some rows \<Rightarrow> rows)) = ''1''"
    by code_simp
  have u: \<open>updateJsonAtPath reference_runtime (json ?st2) (selectedPath ?st2) (editValue ?st2)
       = Inr ''{\<newline>  "a": [\<newline>    {\<newline>      "x": true\<newline>    },\<newline>    2\<newline>  ],\<newline>  "b": null\<newline>}''\<close>
    by code_simp
  have q2: "no_save_succeeds reference_runtime (handleSave reference_runtime ?st2) ?evs2"
    by code_simp
  have e: \<open>editValue ?st2 = ''{"x": true}''\<close>
    by (simp add: example_state_def)
  from handleCancel_restores_last_saved
         [where st = ?st1 and node = ?node and P = reference_runtime and evs = ?evs1]
       o n q1 v
  have first: "editValue (handleCancel (run reference_runtime
         (openEffect reference_runtime ?st1) ?evs1)) = ''1''"
    by simp
  from handleCancel_restores_last_saved
         [where st = ?st2 and P = reference_runtime and evs = ?evs2]
       u q2 e
  have second: \<open>editValue (handleCancel (run reference_runtime
         (handleSave reference_runtime ?st2) ?evs2)) = ''{"x": true}''\<close>
    by simp
  from o n q1 first u q2 second show ?thesis
    by simp
qed

subsection \<open>Rows of a node\<close>

lemma addRow_row_member:
  "key row \<noteq> Some ''__proto__'' \<Longrightarrow>
     addRow (proto_null, obj) row
       = (proto_null, foldl (\<lambda>obj m. obj_define (fst m) (snd m) obj) obj (row_member row))"
  by (auto simp: addRow_def container_row_def split: option.splits)

lemma foldl_addRow:
  "\<forall>row \<in> set rows. key row \<noteq> Some ''__proto__'' \<Longrightarrow>
     foldl addRow (proto_null, obj) rows
       = (proto_null, foldl (\<lambda>obj m. obj_define (fst m) (snd m) obj) obj (row_members rows))"
proof (induction rows arbitrary: obj)
  case Nil
  then show ?case by (simp add: row_members_def)
next
  case (Cons row rows)
  then show ?case
    by (simp add: row_members_def addRow_row_member del: row_member.simps)
qed

lemma map_of_foldl_obj_define:
  "map_of (foldl (\<lambda>obj m. obj_define (fst m) (snd m) obj) obj ms) k
     = (case map_of (rev ms) k of None \<Rightarrow> map_of obj k | Some v \<Rightarrow> Some v)"
proof (induction ms arbitrary: obj)
  case Nil
  then show ?case by simp
next
  case (Cons m ms)
  show ?case
    by (cases m) (auto simp: Cons.IH map_of_obj_define map_of_append split: option.splits)
qed

lemma map_of_object_of: "map_of (object_of ms) = map_of (rev ms)"
  by (rule ext) (simp add: object_of_def map_of_foldl_obj_define split: option.splits)

lemma fst_insert_index:
  "set (map fst (insert_index i k v ps)) = insert k (set (map fst ps))"
  by (induction ps) (auto split: option.splits)

lemma distinct_insert_index:
  "k \<notin> fst ` set ps \<Longrightarrow> distinct (map fst ps) \<Longrightarrow> distinct (map fst (insert_index i k v ps))"
proof (induction ps)
  case Nil
  then show ?case by simp
next
  case (Cons p ps)
  then have "fst p \<notin> set (map fst (insert_index i k v ps))"
    by (auto simp: fst_insert_index simp del: set_map)
  with Cons show ?case
    by (auto split: option.splits)
qed

lemma fst_replace: "map fst (map (\<lambda>p. if fst p = k then (k, v) else p) ps) = map fst ps"
  by (induction ps) auto

lemma distinct_obj_define:
  "distinct (map fst ps) \<Longrightarrow> distinct (map fst (obj_define k v ps))"
proof (cases "k \<in> fst ` set ps")
  case True
  assume "distinct (map fst ps)"
  with True fst_replace [of k v ps] show ?thesis
    by (simp only: obj_define_def if_True)
next
  case False
  assume "distinct (map fst ps)"
  with False show ?thesis
    by (auto simp: obj_define_def distinct_insert_index split: option.splits)
qed

lemma distinct_foldl_obj_define:
  "distinct (map fst obj) \<Longrightarrow>
     distinct (map fst (foldl (\<lambda>obj m. obj_define (fst m) (snd m) obj) obj ms))"
  by (induction ms arbitrary: obj) (simp_all add: distinct_obj_define)

lemma distinct_object_of: "distinct (map fst (object_of ms))"
  by (simp add: object_of_def distinct_foldl_obj_define)

text \<open>
  C5, as stated: for two or more rows the result is the object string built from exactly
  the rows that are neither arrays nor objects. It fails on two such rows of which the
  first has no key: the result is built from the second alone.
\<close>

theorem normalizeNodeData_rows_counterexample:
  \<open>filter (\<lambda>row. \<not> container_row row) example_rows = example_rows
   \<and> length example_rows = 2
   \<and> normalizeNodeData reference_runtime (Some example_rows) = ''{\<newline>  "a": 2\<newline>}''
   \<and> normalizeNodeData reference_runtime (Some example_rows)
       = JSON_stringify reference_runtime (JObj [(''a'', JNum (Decimal 2 0))])\<close>
  by code_simp

text \<open>
  A row with the key \<^verbatim>\<open>__proto__\<close> defines no member either: the assignment goes to the
  accessor of the prototype.
\<close>

lemma normalizeNodeData_proto_row:
  \<open>normalizeNodeData reference_runtime
      (Some [\<lparr>key = Some ''__proto__'', value = VNum (Decimal 1 0), type = ''number''\<rparr>,
             \<lparr>key = Some ''a'', value = VNum (Decimal 2 0), type = ''number''\<rparr>])
     = ''{\<newline>  "a": 2\<newline>}''\<close>
  by code_simp

text \<open>
  C5, amended: for every row list with two or more rows, or one row with a key that is
  not empty, and no key \<^verbatim>\<open>__proto__\<close>, normalizeNodeData returns the JSON object string
  built from the rows that are neither arrays nor objects and have a key that is not
  empty, each defining the member of its key with its value, a later row replacing the
  value of an earlier row with the same key.
\<close>

theorem normalizeNodeData_keyed_rows:
  assumes "2 \<le> length rows \<or> (length rows = 1 \<and> truthy (key (hd rows)))"
    and "\<forall>row \<in> set rows. key row \<noteq> Some ''__proto__''"
  shows "normalizeNodeData P (Some rows) = JSON_stringify P (JObj (object_of (row_members rows)))
         \<and> map_of (object_of (row_members rows)) = map_of (rev (row_members rows))
         \<and> distinct (map fst (object_of (row_members rows)))"
proof -
  from assms(1) have "rows \<noteq> []" by auto
  moreover have "truthy (key (rows ! 0))" if "length rows = 1"
  proof -
    from that obtain row where rows: "rows = [row]" by (cases rows) auto
    with assms(1) show ?thesis by simp
  qed
  ultimately have "normalizeNodeData P (Some rows)
      = JSON_stringify P (JObj (snd (foldl addRow (False, []) rows)))"
    by (auto simp: normalizeNodeData_def)
  with foldl_addRow [OF assms(2), of False "[]"] show ?thesis
    by (simp add: object_of_def [symmetric] map_of_object_of distinct_object_of)
qed

theorem normalizeNodeData_keyed_rows_witness:
  \<open>2 \<le> length example_object_rows
   \<and> list_all (\<lambda>row. key row \<noteq> Some ''__proto__'') example_object_rows
   \<and> row_members example_object_rows = [(''name'', JStr ''x''), (''7'', JBool True)]
   \<and> normalizeNodeData reference_runtime (Some example_object_rows)
       = ''{\<newline>  "7": true,\<newline>  "name": "x"\<newline>}''\<close>
proof -
  have two: "2 \<le> length example_object_rows
       \<or> (length example_object_rows = 1 \<and> truthy (key (hd example_object_rows)))"
    by (simp add: example_object_rows_def)
  have keys: "\<forall>row \<in> set example_object_rows. key row \<noteq> Some ''__proto__''"
    by (simp add: example_object_rows_def)
  have members: "row_members example_object_rows = [(''name'', JStr ''x''), (''7'', JBool True)]"
    by code_simp
  have rendered: \<open>JSON_stringify reference_runtime (JObj (object_of (row_members example_object_rows)))
       = ''{\<newline>  "7": true,\<newline>  "name": "x"\<newline>}''\<close>
    by code_simp
  from normalizeNodeData_keyed_rows [OF two keys, of reference_runtime] rendered members keys
  show ?thesis
    by (simp add: example_object_rows_def list_all_iff)
qed

end
